theory Spec2Isabelle
  imports Main "HOL-Library.Sublist"
begin

chapter \<open>The embedding of the parser module\<close>

section \<open>Python values, errors and tokens\<close>

text \<open>
  The module \<^verbatim>\<open>sphinx/pycode/parser.py\<close> is embedded function by function. A
  raised exception is a value \<open>Inl e\<close> of a sum type, a normal return is \<open>Inr v\<close>.
  A Python \<^verbatim>\<open>str\<close> is a \<open>string\<close>; a \<open>char\<close> stands for a code point below 256.
\<close>

datatype error = NameError | TypeError | ValueError | IndexError | TokenError

text \<open>
  The values a token is compared with. \<open>PyInt\<close> also stands for \<^verbatim>\<open>bool\<close>, a subclass
  of \<^verbatim>\<open>int\<close> (\<^verbatim>\<open>True == 1\<close>). \<open>PyObject n\<close> is an instance of any class that keeps
  the identity comparison of \<^verbatim>\<open>object\<close>; \<open>n\<close> is its identity.
\<close>

datatype pyval =
    PyInt int
  | PyStr string
  | PyList "pyval list"
  | PyTuple "pyval list"
  | PyNone
  | PyObject nat

text \<open>
  Python's \<^verbatim>\<open>==\<close> on these values: integers and strings compare by value, lists
  with lists and tuples with tuples element by element, a list never equals a tuple,
  values of different classes are unequal, plain objects compare by identity.
\<close>

fun py_eq :: "pyval \<Rightarrow> pyval \<Rightarrow> bool"
  and py_eq_list :: "pyval list \<Rightarrow> pyval list \<Rightarrow> bool" where
  "py_eq (PyInt a) (PyInt b) = (a = b)"
| "py_eq (PyStr a) (PyStr b) = (a = b)"
| "py_eq (PyList xs) (PyList ys) = py_eq_list xs ys"
| "py_eq (PyTuple xs) (PyTuple ys) = py_eq_list xs ys"
| "py_eq PyNone PyNone = True"
| "py_eq (PyObject a) (PyObject b) = (a = b)"
| "py_eq _ _ = False"
| "py_eq_list [] [] = True"
| "py_eq_list (x # xs) (y # ys) = (py_eq x y \<and> py_eq_list xs ys)"
| "py_eq_list _ _ = False"

text \<open>
  \<^verbatim>\<open>class Token\<close>: the five fields set by \<^verbatim>\<open>__init__\<close>. The fields \<^verbatim>\<open>value\<close> and
  \<^verbatim>\<open>end\<close> are keywords of the logic and are written \<open>tvalue\<close> and \<open>tend\<close>; the other
  fields follow suit.
\<close>

record Token =
  tkind :: int
  tvalue :: string
  tstart :: "int \<times> int"
  tend :: "int \<times> int"
  tsource :: string

text \<open>\<^verbatim>\<open>list(other)\<close> of a list or a tuple.\<close>

fun py_list :: "pyval \<Rightarrow> pyval list" where
  "py_list (PyList xs) = xs"
| "py_list (PyTuple xs) = xs"
| "py_list _ = []"

text \<open>\<^verbatim>\<open>Token.__eq__\<close>, branch by branch.\<close>

fun Token_eq :: "Token \<Rightarrow> pyval \<Rightarrow> error + bool" where
  "Token_eq t (PyInt other) = Inr (tkind t = other)"
| "Token_eq t (PyStr other) = Inr (tvalue t = other)"
| "Token_eq t (PyList other) =
     Inr (py_eq (PyList [PyInt (tkind t), PyStr (tvalue t)]) (PyList (py_list (PyList other))))"
| "Token_eq t (PyTuple other) =
     Inr (py_eq (PyList [PyInt (tkind t), PyStr (tvalue t)]) (PyList (py_list (PyTuple other))))"
| "Token_eq t PyNone = Inr False"
| "Token_eq t (PyObject n) = Inl ValueError"

section \<open>Strings\<close>

text \<open>
  The methods of \<^verbatim>\<open>str\<close> that the module calls. \<open>isspace\<close> is the whitespace test of
  \<^verbatim>\<open>str.strip\<close> and \<^verbatim>\<open>str.isspace\<close> on the code points below 256: the ASCII
  controls 9 to 13 and 28 to 31, the space, NEL (133) and the no-break space (160).
\<close>

definition isspace :: "char \<Rightarrow> bool" where
  "isspace ch = (of_char ch \<in> {9, 10, 11, 12, 13, 28, 29, 30, 31, 32, 133, 160 :: nat})"

definition lstrip :: "string \<Rightarrow> string" where
  "lstrip s = dropWhile isspace s"

definition rstrip :: "string \<Rightarrow> string" where
  "rstrip s = rev (dropWhile isspace (rev s))"

definition strip :: "string \<Rightarrow> string" where
  "strip s = rstrip (lstrip s)"

definition startswith :: "string \<Rightarrow> string \<Rightarrow> bool" where
  "startswith s p = (take (length p) s = p)"

section \<open>Assignment targets\<close>

text \<open>
  The nodes of the standard \<^verbatim>\<open>ast\<close> module that can stand as an assignment target or
  inside one, with the fields the code reads. The number in each node is the identity
  of the object: \<^verbatim>\<open>ast.AST\<close> defines no \<^verbatim>\<open>__eq__\<close>, so \<^verbatim>\<open>==\<close> on nodes is the
  identity comparison of \<^verbatim>\<open>object\<close>, and the nodes of a tree built by \<^verbatim>\<open>ast.parse\<close>
  are pairwise distinct objects. \<open>Arg\<close> is \<^verbatim>\<open>ast.arg\<close>, a parameter of a function
  definition.
\<close>

datatype expr =
    Name nat string
  | Attribute nat expr string
  | Tuple nat "expr list"
  | List nat "expr list"
  | Subscript nat expr expr
  | Starred nat expr
  | Constant nat pyval
  | Call nat expr "expr list"

datatype arg = Arg nat string

fun expr_id :: "expr \<Rightarrow> nat" where
  "expr_id (Name i _) = i"
| "expr_id (Attribute i _ _) = i"
| "expr_id (Tuple i _) = i"
| "expr_id (List i _) = i"
| "expr_id (Subscript i _ _) = i"
| "expr_id (Starred i _) = i"
| "expr_id (Constant i _) = i"
| "expr_id (Call i _ _) = i"

fun arg_id :: "arg \<Rightarrow> nat" where
  "arg_id (Arg i _) = i"

text \<open>
  \<^verbatim>\<open>node.value == self\<close>, where \<^verbatim>\<open>self\<close> is an \<^verbatim>\<open>ast.arg\<close> or \<^verbatim>\<open>None\<close>: true only when
  both are the same object.
\<close>

fun ast_eq :: "expr \<Rightarrow> arg option \<Rightarrow> bool" where
  "ast_eq node None = False"
| "ast_eq node (Some a) = (expr_id node = arg_id a)"

text \<open>
  \<^verbatim>\<open>get_lvar_names\<close>. The loop over \<^verbatim>\<open>node.elts\<close> extends \<^verbatim>\<open>names\<close> element by
  element; the first exception raised by an element leaves the loop (\<open>extend_names\<close>).
\<close>

fun extend_names :: "(error + string list) list \<Rightarrow> error + string list" where
  "extend_names [] = Inr []"
| "extend_names (Inl e # rest) = Inl e"
| "extend_names (Inr names # rest) =
     (case extend_names rest of Inl e \<Rightarrow> Inl e | Inr others \<Rightarrow> Inr (names @ others))"

fun get_lvar_names :: "expr \<Rightarrow> arg option \<Rightarrow> error + string list" where
  "get_lvar_names (Name i ident) self = Inr [ident]"
| "get_lvar_names (Attribute i v attr) self =
     (if ast_eq v self then Inr [attr] else Inl TypeError)"
| "get_lvar_names (Tuple i elts) self = extend_names (map (\<lambda>elt. get_lvar_names elt self) elts)"
| "get_lvar_names (List i elts) self = extend_names (map (\<lambda>elt. get_lvar_names elt self) elts)"
| "get_lvar_names (Subscript i v sl) self = Inl TypeError"
| "get_lvar_names (Starred i v) self = Inl TypeError"
| "get_lvar_names (Constant i c) self = Inl TypeError"
| "get_lvar_names (Call i f args) self = Inl TypeError"

section \<open>Dedenting a docstring\<close>

text \<open>
  \<^verbatim>\<open>str.expandtabs\<close> (tab size 8; the column restarts after a line feed or a carriage
  return) and \<^verbatim>\<open>str.splitlines\<close> (the line boundaries below code point 256; a carriage
  return followed by a line feed is one boundary).
\<close>

definition is_linebreak :: "char \<Rightarrow> bool" where
  "is_linebreak ch = (of_char ch \<in> {10, 11, 12, 13, 28, 29, 30, 133 :: nat})"

fun expandtabs_from :: "nat \<Rightarrow> string \<Rightarrow> string" where
  "expandtabs_from j [] = []"
| "expandtabs_from j (ch # rest) =
     (if ch = CHR 0x09 then
        replicate (8 - j mod 8) CHR '' '' @ expandtabs_from (j + (8 - j mod 8)) rest
      else ch # expandtabs_from (if ch = CHR 0x0A \<or> ch = CHR 0x0D then 0 else j + 1) rest)"

definition expandtabs :: "string \<Rightarrow> string" where
  "expandtabs s = expandtabs_from 0 s"

fun splitlines_from :: "string \<Rightarrow> string \<Rightarrow> string list" where
  "splitlines_from line [] = (if line = [] then [] else [line])"
| "splitlines_from line [ch] = (if is_linebreak ch then [line] else [line @ [ch]])"
| "splitlines_from line (ch # ch' # rest) =
     (if ch = CHR 0x0D \<and> ch' = CHR 0x0A then line # splitlines_from [] rest
      else if is_linebreak ch then line # splitlines_from [] (ch' # rest)
      else splitlines_from (line @ [ch]) (ch' # rest))"

definition splitlines :: "string \<Rightarrow> string list" where
  "splitlines s = splitlines_from [] s"

text \<open>\<^verbatim>\<open>min\<close> of a sequence raises \<^verbatim>\<open>ValueError\<close> when the sequence is empty.\<close>

fun py_min :: "int list \<Rightarrow> error + int" where
  "py_min [] = Inl ValueError"
| "py_min (x # xs) = Inr (fold min xs x)"

fun join :: "string \<Rightarrow> string list \<Rightarrow> string" where
  "join sep [] = []"
| "join sep [x] = x"
| "join sep (x # y # ys) = x @ sep @ join sep (y # ys)"

text \<open>
  \<^verbatim>\<open>dedent_docstring\<close>. \<^verbatim>\<open>lines[1:]\<close> is \<open>drop 1 lines\<close>, \<^verbatim>\<open>lines[0]\<close> raises
  \<^verbatim>\<open>IndexError\<close> on an empty list, and the two \<^verbatim>\<open>while\<close> loops pop the empty strings
  off the end and off the front of \<^verbatim>\<open>result\<close>.
\<close>

definition dedent_docstring :: "string \<Rightarrow> error + string" where
  "dedent_docstring s =
     (if s = [] then Inr s
      else
        let lines = splitlines (expandtabs s) in
        (case py_min (map (\<lambda>line. int (length line) - int (length (lstrip line)))
                       (filter (\<lambda>line. strip line \<noteq> []) (drop 1 lines))) of
           Inl e \<Rightarrow> Inl e
         | Inr indent0 \<Rightarrow>
             (case lines of
                [] \<Rightarrow> Inl IndexError
              | first # later \<Rightarrow>
                  let indent = (if indent0 < 0 then 0 else indent0);
                      result = [strip first] @ map (\<lambda>line. rstrip (drop (nat indent) line)) later;
                      result = rev (dropWhile (\<lambda>line. line = []) (rev result));
                      result = dropWhile (\<lambda>line. line = []) result
                  in Inr (join [CHR 0x0A] result))))"

section \<open>The token cursor\<close>

text \<open>
  \<^verbatim>\<open>class TokenProcessor\<close>. The generator \<^verbatim>\<open>self.tokens\<close>, made by
  \<^verbatim>\<open>tokenize.generate_tokens\<close> of the standard library, is the sequence of tokens it
  still has to yield, already wrapped as \<open>Token\<close>, together with the way it ends once
  they are yielded (\<open>tokens_end\<close>): \<open>None\<close> when it raises \<^verbatim>\<open>StopIteration\<close>, \<open>Some e\<close>
  when it raises the exception \<open>e\<close>. The tokenizer ends with \<^verbatim>\<open>tokenize.TokenError\<close>
  when the input ends inside an open bracket. The depth limit of the interpreter's call
  stack is not modelled.
\<close>

record TokenProcessor =
  buffers :: "string list"
  tokens :: "Token list"
  tokens_end :: "error option"
  current :: "Token option"
  previous :: "Token option"

definition TokenProcessor_init ::
  "string list \<Rightarrow> Token list \<Rightarrow> error option \<Rightarrow> TokenProcessor" where
  "TokenProcessor_init bufs toks fin =
     \<lparr>buffers = bufs, tokens = toks, tokens_end = fin, current = None, previous = None\<rparr>"

text \<open>
  \<^verbatim>\<open>fetch_token\<close>: the token fetched (or \<^verbatim>\<open>None\<close>) and the updated cursor. Only
  \<^verbatim>\<open>StopIteration\<close> is caught; any other exception of \<^verbatim>\<open>next(self.tokens)\<close> leaves the
  method before a field is assigned.
\<close>

definition fetch_token ::
  "'a TokenProcessor_scheme \<Rightarrow> error + (Token option \<times> 'a TokenProcessor_scheme)" where
  "fetch_token self =
     (case tokens self of
        [] \<Rightarrow>
          (case tokens_end self of
             None \<Rightarrow> Inr (None, self\<lparr>previous := current self, current := None\<rparr>)
           | Some e \<Rightarrow> Inl e)
      | token # rest \<Rightarrow>
          Inr (Some token,
               self\<lparr>tokens := rest, previous := current self, current := Some token\<rparr>))"

text \<open>
  The \<^verbatim>\<open>condition\<close> argument of \<^verbatim>\<open>fetch_until\<close> is either a value that cannot be
  called or a callable; a callable may raise.
\<close>

datatype condition =
    Val pyval
  | Callable "Token \<Rightarrow> error + bool"

text \<open>
  \<^verbatim>\<open>token in condition\<close> for a list or a tuple: the elements are compared with the
  token from left to right through \<^verbatim>\<open>Token.__eq__\<close>, stopping at the first match.
\<close>

fun Token_in :: "Token \<Rightarrow> pyval list \<Rightarrow> error + bool" where
  "Token_in token [] = Inr False"
| "Token_in token (x # xs) =
     (case Token_eq token x of
        Inl e \<Rightarrow> Inl e
      | Inr True \<Rightarrow> Inr True
      | Inr False \<Rightarrow> Token_in token xs)"

text \<open>
  The three stop tests of \<^verbatim>\<open>fetch_until\<close>. A condition that is neither a string, a
  list, a tuple nor a callable (an integer kind such as \<^verbatim>\<open>NEWLINE\<close>, or \<^verbatim>\<open>None\<close>)
  passes none of the \<^verbatim>\<open>isinstance\<close> and \<^verbatim>\<open>callable\<close> guards, so no token stops the scan.
\<close>

fun matches :: "condition \<Rightarrow> Token \<Rightarrow> error + bool" where
  "matches (Val (PyStr s)) token = Token_eq token (PyStr s)"
| "matches (Val (PyList xs)) token = Token_in token xs"
| "matches (Val (PyTuple xs)) token = Token_in token xs"
| "matches (Val (PyInt k)) token = Inr False"
| "matches (Val PyNone) token = Inr False"
| "matches (Val (PyObject n)) token = Inr False"
| "matches (Callable f) token = f token"

text \<open>
  \<^verbatim>\<open>fetch_until\<close>. The \<^verbatim>\<open>while True\<close> loop is \<open>fetch_until_loop\<close>, whose second
  argument is the local list \<^verbatim>\<open>tokens\<close>; a recursive call of \<^verbatim>\<open>self.fetch_until\<close>
  starts the loop again with an empty list. The comparisons \<^verbatim>\<open>token == '('\<close> are
  \<open>Token_eq\<close> with a string, that is, a test of the token's text.
\<close>

function fetch_until_loop ::
  "condition \<Rightarrow> Token list \<Rightarrow> 'a TokenProcessor_scheme \<Rightarrow>
     error + (Token list \<times> 'a TokenProcessor_scheme)" where
  "fetch_until_loop condition toks self =
     (case fetch_token self of
        Inl e \<Rightarrow> Inl e
      | Inr (None, self1) \<Rightarrow> Inr (toks, self1)
      | Inr (Some token, self1) \<Rightarrow>
          (case matches condition token of
             Inl e \<Rightarrow> Inl e
           | Inr True \<Rightarrow> Inr (toks, self1)
           | Inr False \<Rightarrow>
               (if tvalue token = ''('' then
                  (case fetch_until_loop (Val (PyStr '')'')) [] self1 of
                     Inl e \<Rightarrow> Inl e
                   | Inr (inner, self2) \<Rightarrow>
                       fetch_until_loop condition (toks @ [token] @ inner) self2)
                else if tvalue token = ''['' then
                  (case fetch_until_loop (Val (PyStr '']'')) [] self1 of
                     Inl e \<Rightarrow> Inl e
                   | Inr (inner, self2) \<Rightarrow>
                       fetch_until_loop condition (toks @ [token] @ inner) self2)
                else if tvalue token = ''{'' then
                  (case fetch_until_loop (Val (PyStr ''}'')) [] self1 of
                     Inl e \<Rightarrow> Inl e
                   | Inr (inner, self2) \<Rightarrow>
                       fetch_until_loop condition (toks @ [token] @ inner) self2)
                else fetch_until_loop condition (toks @ [token]) self1)))"
  by pat_completeness auto

lemma fetch_token_Some_length:
  "fetch_token self = Inr (Some t, self1) \<Longrightarrow> length (tokens self1) < length (tokens self)"
  by (auto simp: fetch_token_def split: list.splits option.splits)

lemma fetch_token_None_tokens:
  "fetch_token self = Inr (None, self1) \<Longrightarrow> tokens self1 = tokens self"
  by (auto simp: fetch_token_def split: list.splits option.splits)

lemma fetch_token_Nil:
  "tokens self = [] \<Longrightarrow>
   fetch_token self =
     (case tokens_end self of
        None \<Rightarrow> Inr (None, self\<lparr>previous := current self, current := None\<rparr>)
      | Some e \<Rightarrow> Inl e)"
  by (simp add: fetch_token_def)

lemma fetch_token_Cons:
  "tokens self = t # rest \<Longrightarrow>
   fetch_token self =
     Inr (Some t, self\<lparr>tokens := rest, previous := current self, current := Some t\<rparr>)"
  by (simp add: fetch_token_def)

lemma fetch_token_end:
  "fetch_token self = Inr (x, self1) \<Longrightarrow> tokens_end self1 = tokens_end self"
  by (auto simp: fetch_token_def split: list.splits option.splits)

text \<open>
  The nested call leaves no more tokens than it found; this is what makes the outer
  loop terminate.
\<close>

lemma fetch_until_loop_length_dom:
  "fetch_until_loop_dom (c, toks, self) \<Longrightarrow> fetch_until_loop c toks self = Inr (r, self') \<Longrightarrow>
   length (tokens self') \<le> length (tokens self)"
proof (induction c toks self arbitrary: r self' rule: fetch_until_loop.pinduct)
  case (1 c toks self)
  note eq = fetch_until_loop.psimps [OF "1.hyps"]
  show ?case
  proof (cases "fetch_token self")
    case (Inl e)
    with eq "1.prems" show ?thesis by simp
  next
    case ft0: (Inr p)
    obtain x y where p: "p = (x, y)" by force
    with ft0 have ft: "fetch_token self = Inr (x, y)" by simp
    show ?thesis
    proof (cases x)
      case None
      with ft eq "1.prems" have "self' = y" by simp
      with ft None show ?thesis by (simp add: fetch_token_None_tokens)
    next
      case (Some t)
      with ft have len: "length (tokens y) < length (tokens self)"
        by (simp add: fetch_token_Some_length)
      show ?thesis
      proof (cases "matches c t")
        case (Inl e)
        with ft Some eq "1.prems" show ?thesis by simp
      next
        case (Inr b)
        show ?thesis
        proof (cases b)
          case True
          with ft Some Inr eq "1.prems" have "self' = y" by simp
          with len show ?thesis by simp
        next
          case False
          then have bF: "b = False" by simp
          note ctx = ft0 p [symmetric] Some Inr bF
          consider (paren) "tvalue t = ''(''"
            | (bracket) "tvalue t \<noteq> ''(''" "tvalue t = ''[''"
            | (brace) "tvalue t \<noteq> ''(''" "tvalue t \<noteq> ''[''" "tvalue t = ''{''"
            | (plain) "tvalue t \<noteq> ''(''" "tvalue t \<noteq> ''[''" "tvalue t \<noteq> ''{''"
            by blast
          then show ?thesis
          proof cases
            case paren
            from "1.prems" eq ft Some Inr False paren
            obtain inner self2 where
              in1: "fetch_until_loop (Val (PyStr '')'')) [] y = Inr (inner, self2)" and
              out: "fetch_until_loop c (toks @ [t] @ inner) self2 = Inr (r, self')"
              by (auto split: sum.splits)
            from "1.IH"(1) [OF ctx paren in1]
            have "length (tokens self2) \<le> length (tokens y)" .
            moreover from "1.IH"(2) [OF ctx paren in1 refl out]
            have "length (tokens self') \<le> length (tokens self2)" .
            ultimately show ?thesis using len by simp
          next
            case bracket
            from "1.prems" eq ft Some Inr False bracket
            obtain inner self2 where
              in1: "fetch_until_loop (Val (PyStr '']'')) [] y = Inr (inner, self2)" and
              out: "fetch_until_loop c (toks @ [t] @ inner) self2 = Inr (r, self')"
              by (auto split: sum.splits)
            from "1.IH"(3) [OF ctx bracket in1]
            have "length (tokens self2) \<le> length (tokens y)" .
            moreover from "1.IH"(4) [OF ctx bracket in1 refl out]
            have "length (tokens self') \<le> length (tokens self2)" .
            ultimately show ?thesis using len by simp
          next
            case brace
            from "1.prems" eq ft Some Inr False brace
            obtain inner self2 where
              in1: "fetch_until_loop (Val (PyStr ''}'')) [] y = Inr (inner, self2)" and
              out: "fetch_until_loop c (toks @ [t] @ inner) self2 = Inr (r, self')"
              by (auto split: sum.splits)
            from "1.IH"(5) [OF ctx brace in1]
            have "length (tokens self2) \<le> length (tokens y)" .
            moreover from "1.IH"(6) [OF ctx brace in1 refl out]
            have "length (tokens self') \<le> length (tokens self2)" .
            ultimately show ?thesis using len by simp
          next
            case plain
            from "1.prems" eq ft Some Inr False plain
            have out: "fetch_until_loop c (toks @ [t]) y = Inr (r, self')" by simp
            from "1.IH"(7) [OF ctx plain out] len show ?thesis by simp
          qed
        qed
      qed
    qed
  qed
qed

lemma fetch_until_step_measure:
  "fetch_token self = Inr b \<Longrightarrow> (x, self1) = b \<Longrightarrow> x = Some token \<Longrightarrow>
   ((c', toks', self1), (c, toks, self)) \<in> measure (\<lambda>(c, toks, self). length (tokens self))"
  using fetch_token_Some_length [of self token self1] by auto

lemma fetch_until_group_measure:
  "fetch_token self = Inr b \<Longrightarrow> (x, self1) = b \<Longrightarrow> x = Some token \<Longrightarrow>
   fetch_until_loop_dom (c1, toks1, self1) \<Longrightarrow>
   fetch_until_loop c1 toks1 self1 = Inr bb \<Longrightarrow> (inner, self2) = bb \<Longrightarrow>
   ((c', toks', self2), (c, toks, self)) \<in> measure (\<lambda>(c, toks, self). length (tokens self))"
  using fetch_token_Some_length [of self token self1]
    fetch_until_loop_length_dom [of c1 toks1 self1 inner self2]
  by auto

termination fetch_until_loop
proof (relation "measure (\<lambda>(c, toks, self). length (tokens self))", goal_cases)
  case 1
  show ?case by simp
next
  case 2
  then show ?case by - (rule fetch_until_step_measure, assumption+)
next
  case 3
  then show ?case by - (rule fetch_until_group_measure, assumption+)
next
  case 4
  then show ?case by - (rule fetch_until_step_measure, assumption+)
next
  case 5
  then show ?case by - (rule fetch_until_group_measure, assumption+)
next
  case 6
  then show ?case by - (rule fetch_until_step_measure, assumption+)
next
  case 7
  then show ?case by - (rule fetch_until_group_measure, assumption+)
next
  case 8
  then show ?case by - (rule fetch_until_step_measure, assumption+)
qed

declare fetch_until_loop.simps [simp del]

definition fetch_until ::
  "condition \<Rightarrow> 'a TokenProcessor_scheme \<Rightarrow> error + (Token list \<times> 'a TokenProcessor_scheme)" where
  "fetch_until condition self = fetch_until_loop condition [] self"

subsection \<open>Unfolding, induction and basic facts of the scan\<close>

text \<open>
  For the proofs, the three bracket branches are read as one: \<open>closer\<close> gives the
  closing bracket that the branch of an opening bracket scans for.
\<close>

definition closer :: "string \<Rightarrow> string option" where
  "closer v =
     (if v = ''('' then Some '')''
      else if v = ''['' then Some '']''
      else if v = ''{'' then Some ''}''
      else None)"

lemma fetch_until_loop_unfold:
  "fetch_until_loop c toks self =
     (case fetch_token self of
        Inl e \<Rightarrow> Inl e
      | Inr (None, s1) \<Rightarrow> Inr (toks, s1)
      | Inr (Some t, s1) \<Rightarrow>
          (case matches c t of
             Inl e \<Rightarrow> Inl e
           | Inr True \<Rightarrow> Inr (toks, s1)
           | Inr False \<Rightarrow>
               (case closer (tvalue t) of
                  None \<Rightarrow> fetch_until_loop c (toks @ [t]) s1
                | Some cl \<Rightarrow>
                    (case fetch_until_loop (Val (PyStr cl)) [] s1 of
                       Inl e \<Rightarrow> Inl e
                     | Inr (inner, s2) \<Rightarrow> fetch_until_loop c (toks @ [t] @ inner) s2))))"
  by (subst fetch_until_loop.simps)
     (simp add: closer_def split: prod.splits option.splits sum.splits bool.splits)

lemma fetch_until_loop_induct2 [case_names step]:
  assumes step: "\<And>c toks self.
     (\<And>t s1 cl. fetch_token self = Inr (Some t, s1) \<Longrightarrow> matches c t = Inr False \<Longrightarrow>
         closer (tvalue t) = Some cl \<Longrightarrow> P (Val (PyStr cl)) [] s1) \<Longrightarrow>
     (\<And>t s1 cl inner s2. fetch_token self = Inr (Some t, s1) \<Longrightarrow> matches c t = Inr False \<Longrightarrow>
         closer (tvalue t) = Some cl \<Longrightarrow>
         fetch_until_loop (Val (PyStr cl)) [] s1 = Inr (inner, s2) \<Longrightarrow>
         P c (toks @ [t] @ inner) s2) \<Longrightarrow>
     (\<And>t s1. fetch_token self = Inr (Some t, s1) \<Longrightarrow> matches c t = Inr False \<Longrightarrow>
         closer (tvalue t) = None \<Longrightarrow> P c (toks @ [t]) s1) \<Longrightarrow>
     P c toks self"
  shows "P c toks self"
proof (induction c toks self rule: fetch_until_loop.induct)
  case (1 c toks self)
  show ?case
  proof (rule step, goal_cases)
    case (1 t s1 cl)
    then show ?case
      using "1.IH"(1) [of "(Some t, s1)" "Some t" s1 t False]
        "1.IH"(3) [of "(Some t, s1)" "Some t" s1 t False]
        "1.IH"(5) [of "(Some t, s1)" "Some t" s1 t False]
      by (auto simp: closer_def split: if_splits)
  next
    case (2 t s1 cl inner s2)
    then show ?case
      using "1.IH"(2) [of "(Some t, s1)" "Some t" s1 t False "(inner, s2)" inner s2]
        "1.IH"(4) [of "(Some t, s1)" "Some t" s1 t False "(inner, s2)" inner s2]
        "1.IH"(6) [of "(Some t, s1)" "Some t" s1 t False "(inner, s2)" inner s2]
      by (auto simp: closer_def split: if_splits)
  next
    case (3 t s1)
    then show ?case
      using "1.IH"(7) [of "(Some t, s1)" "Some t" s1 t False]
      by (auto simp: closer_def split: if_splits)
  qed
qed

lemma fetch_until_loop_Inr_cases [consumes 1, case_names exhausted stopped plain group]:
  assumes "fetch_until_loop c toks self = Inr (r, self')"
  obtains
    (exhausted) "fetch_token self = Inr (None, self')" "r = toks"
  | (stopped) t where "fetch_token self = Inr (Some t, self')" "matches c t = Inr True" "r = toks"
  | (plain) t s1 where "fetch_token self = Inr (Some t, s1)" "matches c t = Inr False"
      "closer (tvalue t) = None" "fetch_until_loop c (toks @ [t]) s1 = Inr (r, self')"
  | (group) t s1 cl inner s2 where "fetch_token self = Inr (Some t, s1)"
      "matches c t = Inr False" "closer (tvalue t) = Some cl"
      "fetch_until_loop (Val (PyStr cl)) [] s1 = Inr (inner, s2)"
      "fetch_until_loop c (toks @ [t] @ inner) s2 = Inr (r, self')"
proof (cases "fetch_token self")
  case (Inl e)
  with assms show thesis by (simp add: fetch_until_loop_unfold [of c toks self])
next
  case ft0: (Inr p)
  obtain x s1 where "p = (x, s1)" by force
  with ft0 have ft: "fetch_token self = Inr (x, s1)" by simp
  show thesis
  proof (cases x)
    case None
    with assms ft show thesis
      by (intro exhausted) (simp_all add: fetch_until_loop_unfold [of c toks self])
  next
    case (Some t)
    show thesis
    proof (cases "matches c t")
      case (Inl e)
      with assms ft Some show thesis
        by (simp add: fetch_until_loop_unfold [of c toks self])
    next
      case (Inr b)
      show thesis
      proof (cases b)
        case True
        with assms ft Some Inr show thesis
          by (intro stopped [of t]) (simp_all add: fetch_until_loop_unfold [of c toks self])
      next
        case False
        show thesis
        proof (cases "closer (tvalue t)")
          case None
          with assms ft Some Inr False show thesis
            by (intro plain [of t s1]) (simp_all add: fetch_until_loop_unfold [of c toks self])
        next
          case (Some cl)
          with assms ft \<open>x = Some t\<close> Inr False
          obtain inner s2 where
            "fetch_until_loop (Val (PyStr cl)) [] s1 = Inr (inner, s2)"
            "fetch_until_loop c (toks @ [t] @ inner) s2 = Inr (r, self')"
            by (auto simp: fetch_until_loop_unfold [of c toks self] split: sum.splits)
          with ft \<open>x = Some t\<close> Inr False Some show thesis
            by (intro group [of t s1 cl inner s2]) simp_all
        qed
      qed
    qed
  qed
qed

lemma fetch_until_loop_length:
  "fetch_until_loop c toks self = Inr (r, self') \<Longrightarrow>
   length (tokens self') \<le> length (tokens self)"
proof (induction c toks self arbitrary: r self' rule: fetch_until_loop_induct2)
  case (step c toks self)
  from step.prems show ?case
  proof (cases rule: fetch_until_loop_Inr_cases)
    case exhausted
    then show ?thesis by (simp add: fetch_token_None_tokens)
  next
    case (stopped t)
    then show ?thesis using fetch_token_Some_length [of self t self'] by simp
  next
    case (plain t s1)
    with step.IH(3) [of t s1 r self'] fetch_token_Some_length [of self t s1]
    show ?thesis by simp
  next
    case (group t s1 cl inner s2)
    with step.IH(1) [of t s1 cl inner s2] step.IH(2) [of t s1 cl inner s2 r self']
      fetch_token_Some_length [of self t s1]
    show ?thesis by simp
  qed
qed

section \<open>The scanner of the comment after an assignment\<close>

text \<open>
  \<^verbatim>\<open>class AfterCommentParser\<close>: the scanner is given the lines that start at an
  assignment and looks for the comment after its right-hand side.
\<close>

text \<open>
  The token kinds imported from the standard modules \<^verbatim>\<open>token\<close> and \<^verbatim>\<open>tokenize\<close>, with
  the numbers of CPython 3.11. \<open>OP\<close>, \<open>COMMENT\<close> and \<open>NL\<close> are numbered differently by
  other versions; only the examples below mention the numbers.
\<close>

definition ENDMARKER :: int where "ENDMARKER = 0"
definition NAME :: int where "NAME = 1"
definition NUMBER :: int where "NUMBER = 2"
definition NEWLINE :: int where "NEWLINE = 4"
definition OP :: int where "OP = 54"
definition COMMENT :: int where "COMMENT = 61"
definition NL :: int where "NL = 62"

lemma fetch_until_length:
  "fetch_until c self = Inr (r, self') \<Longrightarrow> length (tokens self') \<le> length (tokens self)"
  unfolding fetch_until_def by (rule fetch_until_loop_length)

lemma fetch_token_length:
  "fetch_token self = Inr (x, self1) \<Longrightarrow> length (tokens self1) \<le> length (tokens self)"
  by (auto simp: fetch_token_def split: list.splits option.splits)

lemma fetch_rvalue_group_measure:
  "fetch_token self = Inr b \<Longrightarrow> (x, self1) = b \<Longrightarrow> x = Some token \<Longrightarrow>
   fetch_until c self1 = Inr bb \<Longrightarrow> (inner, self2) = bb \<Longrightarrow>
   fetch_token self2 = Inr bc \<Longrightarrow> (consumed, self3) = bc \<Longrightarrow>
   ((toks', self3), (toks, self)) \<in> measure (\<lambda>(toks, self). length (tokens self))"
  using fetch_token_Some_length [of self token self1] fetch_until_length [of c self1 inner self2]
    fetch_token_length [of self2 consumed self3]
  by auto

lemma fetch_token_measure:
  "fetch_token self = Inr b \<Longrightarrow> (x, self1) = b \<Longrightarrow> x = Some token \<Longrightarrow>
   ((toks', self1), (toks, self)) \<in> measure (\<lambda>(toks, self). length (tokens self))"
  using fetch_token_Some_length [of self token self1] by auto

text \<open>
  \<^verbatim>\<open>fetch_rvalue\<close>. After a bracket group the method appends the result of one more
  \<^verbatim>\<open>fetch_token\<close>, which is \<^verbatim>\<open>None\<close> at the end of the input: the list holds optional
  tokens.
\<close>

function fetch_rvalue_loop ::
  "Token option list \<Rightarrow> 'a TokenProcessor_scheme \<Rightarrow>
     error + (Token option list \<times> 'a TokenProcessor_scheme)" where
  "fetch_rvalue_loop toks self =
     (case fetch_token self of
        Inl e \<Rightarrow> Inl e
      | Inr (None, self1) \<Rightarrow> Inr (toks, self1)
      | Inr (Some token, self1) \<Rightarrow>
          (if tvalue token = '','' \<or> tvalue token = '')'' then Inr (toks, self1)
           else if tvalue token = ''('' then
             (case fetch_until (Val (PyStr '')'')) self1 of
                Inl e \<Rightarrow> Inl e
              | Inr (inner, self2) \<Rightarrow>
                  (case fetch_token self2 of
                     Inl e \<Rightarrow> Inl e
                   | Inr (consumed, self3) \<Rightarrow>
                       fetch_rvalue_loop (toks @ [Some token] @ map Some inner @ [consumed]) self3))
           else if tvalue token = ''['' then
             (case fetch_until (Val (PyStr '']'')) self1 of
                Inl e \<Rightarrow> Inl e
              | Inr (inner, self2) \<Rightarrow>
                  (case fetch_token self2 of
                     Inl e \<Rightarrow> Inl e
                   | Inr (consumed, self3) \<Rightarrow>
                       fetch_rvalue_loop (toks @ [Some token] @ map Some inner @ [consumed]) self3))
           else if tvalue token = ''{'' then
             (case fetch_until (Val (PyStr ''}'')) self1 of
                Inl e \<Rightarrow> Inl e
              | Inr (inner, self2) \<Rightarrow>
                  (case fetch_token self2 of
                     Inl e \<Rightarrow> Inl e
                   | Inr (consumed, self3) \<Rightarrow>
                       fetch_rvalue_loop (toks @ [Some token] @ map Some inner @ [consumed]) self3))
           else fetch_rvalue_loop (toks @ [Some token]) self1))"
  by pat_completeness auto
termination
proof (relation "measure (\<lambda>(toks, self). length (tokens self))", goal_cases)
  case 1
  show ?case by simp
next
  case 2
  then show ?case by - (rule fetch_rvalue_group_measure, assumption+)
next
  case 3
  then show ?case by - (rule fetch_rvalue_group_measure, assumption+)
next
  case 4
  then show ?case by - (rule fetch_rvalue_group_measure, assumption+)
next
  case 5
  then show ?case by - (rule fetch_token_measure, assumption+)
qed

declare fetch_rvalue_loop.simps [simp del]

definition fetch_rvalue ::
  "'a TokenProcessor_scheme \<Rightarrow> error + (Token option list \<times> 'a TokenProcessor_scheme)" where
  "fetch_rvalue self = fetch_rvalue_loop [] self"

text \<open>\<^verbatim>\<open>class AfterCommentParser(TokenProcessor)\<close> adds the field \<^verbatim>\<open>comment\<close>.\<close>

record AfterCommentParser = TokenProcessor +
  comment :: "string option"

definition AfterCommentParser_init ::
  "string list \<Rightarrow> Token list \<Rightarrow> error option \<Rightarrow> AfterCommentParser" where
  "AfterCommentParser_init lines toks fin =
     \<lparr>buffers = lines, tokens = toks, tokens_end = fin, current = None, previous = None,
      comment = None\<rparr>"

text \<open>
  \<^verbatim>\<open>parse\<close>. Its first loop, which skips the left-hand side, is \<open>skip_lvalue\<close>: it
  returns whether an \<^verbatim>\<open>=\<close> or \<^verbatim>\<open>:\<close> token was met before the input ended.
\<close>

function skip_lvalue ::
  "'a TokenProcessor_scheme \<Rightarrow> error + (bool \<times> 'a TokenProcessor_scheme)" where
  "skip_lvalue self =
     (case fetch_token self of
        Inl e \<Rightarrow> Inl e
      | Inr (None, self1) \<Rightarrow> Inr (False, self1)
      | Inr (Some token, self1) \<Rightarrow>
          (if tvalue token = ''='' \<or> tvalue token = '':'' then Inr (True, self1)
           else skip_lvalue self1))"
  by pat_completeness auto
termination
proof (relation "measure (\<lambda>self. length (tokens self))", goal_cases)
  case 1
  show ?case by simp
next
  case (2 self b x self1 token)
  then show ?case using fetch_token_Some_length [of self token self1] by auto
qed

declare skip_lvalue.simps [simp del]

definition AfterCommentParser_parse :: "AfterCommentParser \<Rightarrow> error + AfterCommentParser" where
  "AfterCommentParser_parse self =
     (case skip_lvalue self of
        Inl e \<Rightarrow> Inl e
      | Inr (False, self1) \<Rightarrow> Inr self1
      | Inr (True, self1) \<Rightarrow>
          (case fetch_rvalue self1 of
             Inl e \<Rightarrow> Inl e
           | Inr (rvalue, self2) \<Rightarrow>
               (if rvalue = [] then Inr self2
                else
                  (case fetch_token self2 of
                     Inl e \<Rightarrow> Inl e
                   | Inr (None, self3) \<Rightarrow> Inr self3
                   | Inr (Some token, self3) \<Rightarrow>
                       (if tkind token = COMMENT \<and> startswith (tvalue token) ''#:''
                        then Inr (self3\<lparr>comment := Some (strip (drop 2 (tvalue token)))\<rparr>)
                        else
                          (case fetch_until (Val (PyInt NEWLINE)) self3 of
                             Inl e \<Rightarrow> Inl e
                           | Inr (skipped, self4) \<Rightarrow> Inr self4))))))"

section \<open>The declaration walker\<close>

text \<open>
  \<^verbatim>\<open>class VariableCommentPicker\<close>: the state set by \<^verbatim>\<open>__init__\<close> (every field carries the prefix
  \<open>vcp\<close>, since the other classes have fields of the same names; the registry of
  overload signatures is left out). In the repository the body of every method of the
  class, \<^verbatim>\<open>visit\<close> and \<^verbatim>\<open>visit_Assign\<close> included, is the single statement \<^verbatim>\<open>pass\<close>:
  the method returns without reading its node or changing the state.
\<close>

datatype node =
    Module nat "node list"
  | Assign nat "expr list" expr
  | AnnAssign nat expr expr "expr option"
  | Expr nat expr
  | FunctionDef nat string "arg list" "node list"
  | ClassDef nat string "node list"

record VariableCommentPicker =
  vcp_counter :: nat
  vcp_buffers :: "string list"
  vcp_encoding :: string
  vcp_context :: "string list"
  vcp_current_classes :: "string list"
  vcp_current_function :: "node option"
  vcp_comments :: "string \<times> string \<rightharpoonup> string"
  vcp_annotations :: "string \<times> string \<rightharpoonup> string"
  vcp_previous :: "node option"
  vcp_deforders :: "string \<rightharpoonup> int"
  vcp_finals :: "string list"
  vcp_typing :: "string option"
  vcp_typing_final :: "string option"
  vcp_typing_overload :: "string option"

definition VariableCommentPicker_init :: "string list \<Rightarrow> string \<Rightarrow> VariableCommentPicker" where
  "VariableCommentPicker_init bufs enc =
     \<lparr>vcp_counter = 0, vcp_buffers = bufs, vcp_encoding = enc, vcp_context = [],
      vcp_current_classes = [], vcp_current_function = None, vcp_comments = Map.empty,
      vcp_annotations = Map.empty, vcp_previous = None, vcp_deforders = Map.empty, vcp_finals = [],
      vcp_typing = None, vcp_typing_final = None, vcp_typing_overload = None\<rparr>"

definition visit :: "VariableCommentPicker \<Rightarrow> node \<Rightarrow> VariableCommentPicker" where
  "visit self node = self"

definition visit_Assign :: "VariableCommentPicker \<Rightarrow> node \<Rightarrow> VariableCommentPicker" where
  "visit_Assign self node = self"

section \<open>The definition locator\<close>

text \<open>
  \<^verbatim>\<open>class DefinitionFinder(TokenProcessor)\<close>. In the repository the bodies of
  \<^verbatim>\<open>add_definition\<close>, \<^verbatim>\<open>parse\<close>, \<^verbatim>\<open>parse_definition\<close> and \<^verbatim>\<open>finalize_block\<close> are the
  single statement \<^verbatim>\<open>pass\<close>.
\<close>

record DefinitionFinder = TokenProcessor +
  decorator :: "Token option"
  df_context :: "string list"
  indents :: "(string \<times> string option \<times> int option) list"
  df_definitions :: "string \<rightharpoonup> string \<times> int \<times> int"

definition DefinitionFinder_init ::
  "string list \<Rightarrow> Token list \<Rightarrow> error option \<Rightarrow> DefinitionFinder" where
  "DefinitionFinder_init lines toks fin =
     \<lparr>buffers = lines, tokens = toks, tokens_end = fin, current = None, previous = None,
      decorator = None, df_context = [], indents = [], df_definitions = Map.empty\<rparr>"

definition DefinitionFinder_parse :: "DefinitionFinder \<Rightarrow> DefinitionFinder" where
  "DefinitionFinder_parse self = self"

section \<open>The facade\<close>

text \<open>
  The names bound in the namespace of the module: the attributes every module gets
  from the import system, the names bound by its \<^verbatim>\<open>import\<close> statements, its three
  regular expressions, and its functions and classes. \<^verbatim>\<open>filter_whitespace\<close> is not
  among them.
\<close>

definition module_globals :: "string list" where
  "module_globals =
     [''__name__'', ''__doc__'', ''__package__'', ''__loader__'', ''__spec__'', ''__file__'',
      ''__cached__'', ''__builtins__'',
      ''annotations'', ''ast'', ''contextlib'', ''functools'', ''inspect'', ''itertools'',
      ''operator'', ''re'', ''tokenize'', ''Signature'', ''DEDENT'', ''INDENT'', ''NAME'',
      ''NEWLINE'', ''NUMBER'', ''OP'', ''STRING'', ''COMMENT'', ''NL'', ''Any'', ''ast_unparse'',
      ''comment_re'', ''indent_re'', ''emptyline_re'', ''get_assign_targets'',
      ''get_lvar_names'', ''dedent_docstring'', ''Token'', ''TokenProcessor'',
      ''AfterCommentParser'', ''VariableCommentPicker'', ''DefinitionFinder'', ''Parser'']"

text \<open>
  \<^verbatim>\<open>class Parser\<close>. A signature of the registry of overloads is kept as text.
\<close>

record Parser =
  code :: string
  encoding :: string
  annotations :: "string \<times> string \<rightharpoonup> string"
  comments :: "string \<times> string \<rightharpoonup> string"
  deforders :: "string \<rightharpoonup> int"
  definitions :: "string \<rightharpoonup> string \<times> int \<times> int"
  finals :: "string list"
  overloads :: "string \<rightharpoonup> string list"

text \<open>
  \<^verbatim>\<open>Parser.__init__\<close>. The global name \<^verbatim>\<open>filter_whitespace\<close> is looked up in the
  module's namespace and then in the builtins; when neither binds it, \<^verbatim>\<open>NameError\<close> is
  raised before any field is set. \<open>builtins\<close> are the names of the builtins module, and
  \<open>bound\<close> is the call of the object the name would be bound to there.
\<close>

definition Parser_init ::
  "string list \<Rightarrow> (string \<Rightarrow> error + string) \<Rightarrow> string \<Rightarrow> string \<Rightarrow> error + Parser" where
  "Parser_init builtins bound code0 encoding0 =
     (if ''filter_whitespace'' \<notin> set module_globals \<and> ''filter_whitespace'' \<notin> set builtins
      then Inl NameError
      else
        (case bound code0 of
           Inl e \<Rightarrow> Inl e
         | Inr filtered \<Rightarrow>
             Inr \<lparr>code = filtered, encoding = encoding0, annotations = Map.empty,
                  comments = Map.empty, deforders = Map.empty, definitions = Map.empty,
                  finals = [], overloads = Map.empty\<rparr>))"

text \<open>
  \<^verbatim>\<open>Parser.parse\<close> (its body is \<^verbatim>\<open>pass\<close>), and the use of the class: construct it on the
  source text, call \<^verbatim>\<open>parse\<close>, read the result maps off the object.
\<close>

definition Parser_parse :: "Parser \<Rightarrow> Parser" where
  "Parser_parse self = self"

definition analyze ::
  "string list \<Rightarrow> (string \<Rightarrow> error + string) \<Rightarrow> string \<Rightarrow> error + Parser" where
  "analyze builtins bound source =
     (case Parser_init builtins bound source ''utf-8'' of
        Inl e \<Rightarrow> Inl e
      | Inr parser \<Rightarrow> Inr (Parser_parse parser))"

section \<open>The inputs of the examples\<close>

text \<open>
  The tokens that \<^verbatim>\<open>tokenize.generate_tokens\<close> yields for the lines of the examples,
  each wrapped by \<^verbatim>\<open>Token(*token)\<close>. For lines that end inside an open bracket these
  are the tokens yielded before the tokenizer raises \<^verbatim>\<open>tokenize.TokenError\<close>; the
  other streams end with \<^verbatim>\<open>StopIteration\<close>.
\<close>

definition Token_init ::
  "int \<Rightarrow> string \<Rightarrow> int \<times> int \<Rightarrow> int \<times> int \<Rightarrow> string \<Rightarrow> Token" where
  "Token_init k v st en src = \<lparr>tkind = k, tvalue = v, tstart = st, tend = en, tsource = src\<rparr>"

definition line_x_comment :: string where
  "line_x_comment = ''x = 1  #: the comment'' @ [CHR 0x0A]"

definition tokens_x_comment :: "Token list" where
  "tokens_x_comment =
     [Token_init NAME ''x'' (1, 0) (1, 1) line_x_comment,
      Token_init OP ''='' (1, 2) (1, 3) line_x_comment,
      Token_init NUMBER ''1'' (1, 4) (1, 5) line_x_comment,
      Token_init COMMENT ''#: the comment'' (1, 7) (1, 21) line_x_comment,
      Token_init NEWLINE [CHR 0x0A] (1, 21) (1, 22) line_x_comment,
      Token_init ENDMARKER [] (2, 0) (2, 0) []]"

definition line_x_int :: string where
  "line_x_int = ''x: int'' @ [CHR 0x0A]"

definition tokens_x_int :: "Token list" where
  "tokens_x_int =
     [Token_init NAME ''x'' (1, 0) (1, 1) line_x_int,
      Token_init OP '':'' (1, 1) (1, 2) line_x_int,
      Token_init NAME ''int'' (1, 3) (1, 6) line_x_int,
      Token_init NEWLINE [CHR 0x0A] (1, 6) (1, 7) line_x_int,
      Token_init ENDMARKER [] (2, 0) (2, 0) []]"

definition line_self_y :: string where
  "line_self_y = ''self.y = compute(a, (b, c), [d])  #: note'' @ [CHR 0x0A]"

definition tokens_self_y :: "Token list" where
  "tokens_self_y =
     [Token_init NAME ''self'' (1, 0) (1, 4) line_self_y,
      Token_init OP ''.'' (1, 4) (1, 5) line_self_y,
      Token_init NAME ''y'' (1, 5) (1, 6) line_self_y,
      Token_init OP ''='' (1, 7) (1, 8) line_self_y,
      Token_init NAME ''compute'' (1, 9) (1, 16) line_self_y,
      Token_init OP ''('' (1, 16) (1, 17) line_self_y,
      Token_init NAME ''a'' (1, 17) (1, 18) line_self_y,
      Token_init OP '','' (1, 18) (1, 19) line_self_y,
      Token_init OP ''('' (1, 20) (1, 21) line_self_y,
      Token_init NAME ''b'' (1, 21) (1, 22) line_self_y,
      Token_init OP '','' (1, 22) (1, 23) line_self_y,
      Token_init NAME ''c'' (1, 24) (1, 25) line_self_y,
      Token_init OP '')'' (1, 25) (1, 26) line_self_y,
      Token_init OP '','' (1, 26) (1, 27) line_self_y,
      Token_init OP ''['' (1, 28) (1, 29) line_self_y,
      Token_init NAME ''d'' (1, 29) (1, 30) line_self_y,
      Token_init OP '']'' (1, 30) (1, 31) line_self_y,
      Token_init OP '')'' (1, 31) (1, 32) line_self_y,
      Token_init COMMENT ''#: note'' (1, 34) (1, 41) line_self_y,
      Token_init NEWLINE [CHR 0x0A] (1, 41) (1, 42) line_self_y,
      Token_init ENDMARKER [] (2, 0) (2, 0) []]"

definition line_y_tuple :: string where
  "line_y_tuple = ''y = 1,  #: doc'' @ [CHR 0x0A]"

definition tokens_x_int_then_y :: "Token list" where
  "tokens_x_int_then_y =
     [Token_init NAME ''x'' (1, 0) (1, 1) line_x_int,
      Token_init OP '':'' (1, 1) (1, 2) line_x_int,
      Token_init NAME ''int'' (1, 3) (1, 6) line_x_int,
      Token_init NEWLINE [CHR 0x0A] (1, 6) (1, 7) line_x_int,
      Token_init NAME ''y'' (2, 0) (2, 1) line_y_tuple,
      Token_init OP ''='' (2, 2) (2, 3) line_y_tuple,
      Token_init NUMBER ''1'' (2, 4) (2, 5) line_y_tuple,
      Token_init OP '','' (2, 5) (2, 6) line_y_tuple,
      Token_init COMMENT ''#: doc'' (2, 8) (2, 14) line_y_tuple,
      Token_init NEWLINE [CHR 0x0A] (2, 14) (2, 15) line_y_tuple,
      Token_init ENDMARKER [] (3, 0) (3, 0) []]"

definition line_group :: string where
  "line_group = ''(a) + b; c'' @ [CHR 0x0A]"

definition tokens_group :: "Token list" where
  "tokens_group =
     [Token_init OP ''('' (1, 0) (1, 1) line_group,
      Token_init NAME ''a'' (1, 1) (1, 2) line_group,
      Token_init OP '')'' (1, 2) (1, 3) line_group,
      Token_init OP ''+'' (1, 4) (1, 5) line_group,
      Token_init NAME ''b'' (1, 6) (1, 7) line_group,
      Token_init OP '';'' (1, 7) (1, 8) line_group,
      Token_init NAME ''c'' (1, 9) (1, 10) line_group,
      Token_init NEWLINE [CHR 0x0A] (1, 10) (1, 11) line_group,
      Token_init ENDMARKER [] (2, 0) (2, 0) []]"

definition line_unclosed :: string where
  "line_unclosed = ''(a, (b)'' @ [CHR 0x0A]"

definition tokens_unclosed :: "Token list" where
  "tokens_unclosed =
     [Token_init OP ''('' (1, 0) (1, 1) line_unclosed,
      Token_init NAME ''a'' (1, 1) (1, 2) line_unclosed,
      Token_init OP '','' (1, 2) (1, 3) line_unclosed,
      Token_init OP ''('' (1, 4) (1, 5) line_unclosed,
      Token_init NAME ''b'' (1, 5) (1, 6) line_unclosed,
      Token_init OP '')'' (1, 6) (1, 7) line_unclosed,
      Token_init NL [CHR 0x0A] (1, 7) (1, 8) line_unclosed]"

definition line_open :: string where
  "line_open = ''f(a, [b'' @ [CHR 0x0A]"

definition tokens_open :: "Token list" where
  "tokens_open =
     [Token_init NAME ''f'' (1, 0) (1, 1) line_open,
      Token_init OP ''('' (1, 1) (1, 2) line_open,
      Token_init NAME ''a'' (1, 2) (1, 3) line_open,
      Token_init OP '','' (1, 3) (1, 4) line_open,
      Token_init OP ''['' (1, 5) (1, 6) line_open,
      Token_init NAME ''b'' (1, 6) (1, 7) line_open,
      Token_init NL [CHR 0x0A] (1, 7) (1, 8) line_open]"

definition line_subscript :: string where
  "line_subscript = ''d[0] = '' @ [CHR 0x27] @ ''x'' @ [CHR 0x27, CHR 0x0A]"

definition line_y_doc :: string where
  "line_y_doc = ''y = 1  #: doc'' @ [CHR 0x0A]"

definition module_subscript_then_y :: node where
  "module_subscript_then_y =
     Module 1
       [Assign 2 [Subscript 3 (Name 4 ''d'') (Constant 5 (PyInt 0))] (Constant 6 (PyStr ''x'')),
        Assign 7 [Name 8 ''y''] (Constant 9 (PyInt 1))]"

chapter \<open>Properties\<close>

lemmas example_defs = Token_init_def TokenProcessor_init_def fetch_token_def fetch_until_def
  ENDMARKER_def NAME_def NUMBER_def NEWLINE_def OP_def COMMENT_def NL_def

section \<open>Token equality\<close>

text \<open>
  C8. A token compared with a string holds iff its literal text is that string; compared
  with an integer it holds iff its kind is that integer; compared with a pair (as a
  tuple or as a list) it holds iff the kind is the first and the text the second
  component. None of the three comparisons raises.
\<close>

theorem Token_eq_str_int_pair:
  "Token_eq t (PyStr s) = Inr (tvalue t = s) \<and>
   Token_eq t (PyInt k) = Inr (tkind t = k) \<and>
   Token_eq t (PyTuple [PyInt k, PyStr s]) = Inr (tkind t = k \<and> tvalue t = s) \<and>
   Token_eq t (PyList [PyInt k, PyStr s]) = Inr (tkind t = k \<and> tvalue t = s)"
  by simp

section \<open>Bracket groups in the scan\<close>

lemma matches_str [simp]: "matches (Val (PyStr s)) t = Inr (tvalue t = s)"
  by simp

lemma fetch_until_loop_end:
  "fetch_until_loop c toks self = Inr (r, self') \<Longrightarrow> tokens_end self' = tokens_end self"
proof (induction c toks self arbitrary: r self' rule: fetch_until_loop_induct2)
  case (step c toks self)
  from step.prems show ?case
  proof (cases rule: fetch_until_loop_Inr_cases)
    case exhausted
    then show ?thesis by (simp add: fetch_token_end)
  next
    case (stopped t)
    then show ?thesis by (simp add: fetch_token_end)
  next
    case (plain t s1)
    with step.IH(3) [of t s1 r self'] fetch_token_end [of self "Some t" s1]
    show ?thesis by simp
  next
    case (group t s1 cl inner s2)
    with step.IH(1) [of t s1 cl inner s2] step.IH(2) [of t s1 cl inner s2 r self']
      fetch_token_end [of self "Some t" s1]
    show ?thesis by simp
  qed
qed

lemma fetch_until_loop_Nil:
  "tokens self = [] \<Longrightarrow> tokens_end self = None \<Longrightarrow>
   fetch_until_loop c toks self = Inr (toks, self\<lparr>previous := current self, current := None\<rparr>)"
  by (simp add: fetch_until_loop_unfold [of c toks self] fetch_token_Nil)

text \<open>
  A scan that no token stops and in which no bracket is closed runs to the end of the
  stream: it returns the whole stream when the generator ends with \<^verbatim>\<open>StopIteration\<close>,
  and it raises the generator's exception otherwise.
\<close>

lemma fetch_until_loop_nothing_closes:
  "(\<And>t. t \<in> set (tokens self) \<Longrightarrow>
       matches c t = Inr False \<and> tvalue t \<noteq> '')'' \<and> tvalue t \<noteq> '']'' \<and> tvalue t \<noteq> ''}'') \<Longrightarrow>
   (tokens_end self = None \<longrightarrow>
      (\<exists>self'. fetch_until_loop c toks self = Inr (toks @ tokens self, self') \<and>
         tokens self' = [] \<and> current self' = None \<and> tokens_end self' = None)) \<and>
   (\<forall>e. tokens_end self = Some e \<longrightarrow> fetch_until_loop c toks self = Inl e)"
proof (induction c toks self rule: fetch_until_loop_induct2)
  case (step c toks self)
  show ?case
  proof (cases "tokens self")
    case Nil
    then show ?thesis
      by (simp add: fetch_until_loop_unfold [of c toks self] fetch_token_Nil split: option.splits)
  next
    case (Cons t rest)
    define s1 where "s1 = self\<lparr>tokens := rest, previous := current self, current := Some t\<rparr>"
    from Cons have ft: "fetch_token self = Inr (Some t, s1)"
      by (simp add: fetch_token_Cons s1_def)
    have rest: "tokens s1 = rest" "tokens_end s1 = tokens_end self"
      by (simp_all add: s1_def)
    from step.prems [of t] Cons have m: "matches c t = Inr False" by simp
    have later: "u \<in> set rest \<Longrightarrow>
        matches c u = Inr False \<and> tvalue u \<noteq> '')'' \<and> tvalue u \<noteq> '']'' \<and> tvalue u \<noteq> ''}''" for u
      using step.prems [of u] Cons by simp
    show ?thesis
    proof (cases "closer (tvalue t)")
      case None
      have "(tokens_end s1 = None \<longrightarrow>
          (\<exists>self'. fetch_until_loop c (toks @ [t]) s1 = Inr ((toks @ [t]) @ tokens s1, self') \<and>
             tokens self' = [] \<and> current self' = None \<and> tokens_end self' = None)) \<and>
          (\<forall>e. tokens_end s1 = Some e \<longrightarrow> fetch_until_loop c (toks @ [t]) s1 = Inl e)"
        using later rest by (intro step.IH(3) [OF ft m None]) simp
      with ft m None Cons rest show ?thesis
        by (simp add: fetch_until_loop_unfold [of c toks self])
    next
      case (Some cl)
      then have cl: "cl = '')'' \<or> cl = '']'' \<or> cl = ''}''"
        by (auto simp: closer_def split: if_splits)
      have inner: "(tokens_end s1 = None \<longrightarrow>
          (\<exists>self'. fetch_until_loop (Val (PyStr cl)) [] s1 = Inr ([] @ tokens s1, self') \<and>
             tokens self' = [] \<and> current self' = None \<and> tokens_end self' = None)) \<and>
          (\<forall>e. tokens_end s1 = Some e \<longrightarrow> fetch_until_loop (Val (PyStr cl)) [] s1 = Inl e)"
      proof (rule step.IH(1) [OF ft m Some])
        fix u assume "u \<in> set (tokens s1)"
        with later [of u] rest cl
        show "matches (Val (PyStr cl)) u = Inr False \<and>
            tvalue u \<noteq> '')'' \<and> tvalue u \<noteq> '']'' \<and> tvalue u \<noteq> ''}''"
          by auto
      qed
      show ?thesis
      proof (cases "tokens_end self")
        case (Some e)
        with inner rest ft m \<open>closer (tvalue t) = Some cl\<close> show ?thesis
          by (simp add: fetch_until_loop_unfold [of c toks self])
      next
        case None
        with inner rest obtain s2 where
          n: "fetch_until_loop (Val (PyStr cl)) [] s1 = Inr (rest, s2)" and
          s2: "tokens s2 = []" "current s2 = None" "tokens_end s2 = None"
          by auto
        from s2(1,3) have "fetch_until_loop c (toks @ [t] @ rest) s2 =
            Inr (toks @ [t] @ rest, s2\<lparr>previous := current s2, current := None\<rparr>)"
          by (rule fetch_until_loop_Nil)
        with ft m \<open>closer (tvalue t) = Some cl\<close> n Cons None s2 show ?thesis
          by (simp add: fetch_until_loop_unfold [of c toks self])
      qed
    qed
  qed
qed

text \<open>
  A scan that returns with no current token has run to the end of a stream that ends
  with \<^verbatim>\<open>StopIteration\<close>.
\<close>

lemma fetch_until_loop_final:
  "fetch_until_loop c toks self = Inr (r, self') \<Longrightarrow> current self' = None \<Longrightarrow>
   tokens self' = [] \<and> tokens_end self' = None"
proof (induction c toks self arbitrary: r self' rule: fetch_until_loop_induct2)
  case (step c toks self)
  from step.prems(1) show ?case
  proof (cases rule: fetch_until_loop_Inr_cases)
    case exhausted
    then show ?thesis by (auto simp: fetch_token_def split: list.splits option.splits)
  next
    case (stopped t)
    with step.prems(2) show ?thesis
      by (auto simp: fetch_token_def split: list.splits option.splits)
  next
    case (plain t s1)
    with step.IH(3) [of t s1 r self'] step.prems(2) show ?thesis by simp
  next
    case (group t s1 cl inner s2)
    with step.IH(2) [of t s1 cl inner s2 r self'] step.prems(2) show ?thesis by simp
  qed
qed

text \<open>
  When the scan for the closing bracket of an opening bracket \<open>b\<close> returns with no
  current token, the enclosing scan returns as well, with every token it had
  accumulated, the bracket, and every token the inner scan accumulated.
\<close>

lemma fetch_until_loop_group_exhausted:
  assumes "fetch_token self = Inr (Some b, self1)"
    and "matches c b = Inr False"
    and "closer (tvalue b) = Some cl"
    and "fetch_until (Val (PyStr cl)) self1 = Inr (inner, self2)"
    and "current self2 = None"
  shows "\<exists>self'. fetch_until_loop c toks self = Inr (toks @ b # inner, self') \<and>
    tokens self' = [] \<and> current self' = None"
proof -
  from assms(4) have nested: "fetch_until_loop (Val (PyStr cl)) [] self1 = Inr (inner, self2)"
    by (simp add: fetch_until_def)
  with assms(5) have empty: "tokens self2 = []" "tokens_end self2 = None"
    by (blast dest: fetch_until_loop_final)+
  from assms(1-3) nested
  have "fetch_until_loop c toks self = fetch_until_loop c (toks @ [b] @ inner) self2"
    by (simp add: fetch_until_loop_unfold [of c toks self])
  also from empty have "\<dots> =
      Inr (toks @ [b] @ inner, self2\<lparr>previous := current self2, current := None\<rparr>)"
    by (rule fetch_until_loop_Nil)
  finally show ?thesis using empty by simp
qed

lemma fetch_until_loop_flat:
  "tokens self = grp @ t # rest \<Longrightarrow>
   \<forall>u \<in> set grp. matches c u = Inr False \<and> closer (tvalue u) = None \<Longrightarrow>
   matches c t = Inr True \<Longrightarrow>
   \<exists>self'. fetch_until_loop c toks self = Inr (toks @ grp, self') \<and>
      tokens self' = rest \<and> current self' = Some t"
proof (induction grp arbitrary: self toks)
  case Nil
  then show ?case
    by (simp add: fetch_until_loop_unfold [of c toks self] fetch_token_Cons)
next
  case (Cons u grp)
  let ?s1 = "self\<lparr>tokens := grp @ t # rest, previous := current self, current := Some u\<rparr>"
  from Cons.prems have ft: "fetch_token self = Inr (Some u, ?s1)"
    by (simp add: fetch_token_Cons)
  have "\<exists>self'. fetch_until_loop c (toks @ [u]) ?s1 = Inr ((toks @ [u]) @ grp, self') \<and>
      tokens self' = rest \<and> current self' = Some t"
    using Cons.prems by (intro Cons.IH) simp_all
  with ft Cons.prems show ?case
    by (simp add: fetch_until_loop_unfold [of c toks self])
qed

text \<open>
  A bracket group without inner brackets is skipped as a whole, whatever stands inside
  it: the scan goes on behind the closing bracket, with the opening bracket and the
  inside of the group accumulated, and the closing bracket consumed.
\<close>

lemma fetch_until_loop_skips_group:
  assumes "tokens self = b # grp @ e # rest"
    and "matches c b = Inr False"
    and "closer (tvalue b) = Some cl"
    and "\<forall>u \<in> set grp. tvalue u \<noteq> cl \<and> closer (tvalue u) = None"
    and "tvalue e = cl"
  shows "\<exists>self1. fetch_until_loop c toks self = fetch_until_loop c (toks @ b # grp) self1 \<and>
      tokens self1 = rest \<and> current self1 = Some e"
proof -
  let ?s1 = "self\<lparr>tokens := grp @ e # rest, previous := current self, current := Some b\<rparr>"
  from assms(1) have ft: "fetch_token self = Inr (Some b, ?s1)" by (simp add: fetch_token_Cons)
  have "\<exists>self'. fetch_until_loop (Val (PyStr cl)) [] ?s1 = Inr ([] @ grp, self') \<and>
      tokens self' = rest \<and> current self' = Some e"
    using assms(4,5) by (intro fetch_until_loop_flat) simp_all
  then obtain s2 where "fetch_until_loop (Val (PyStr cl)) [] ?s1 = Inr (grp, s2)"
    "tokens s2 = rest" "current s2 = Some e" by auto
  with ft assms(2,3) show ?thesis
    by (auto simp: fetch_until_loop_unfold [of c toks self])
qed

text \<open>
  C3. On the tokens of \<^verbatim>\<open>(a) + b; c\<close> with the stop string \<^verbatim>\<open>;\<close> the scan returns
  \<^verbatim>\<open>( a + b\<close>: the closing bracket of the group is consumed by the nested call, which
  returns without it, and so it is missing from the accumulated result. The scan does
  stop at the \<^verbatim>\<open>;\<close> outside the group.
\<close>

theorem fetch_until_drops_closing_bracket:
  "fetch_until (Val (PyStr '';'')) (TokenProcessor_init [line_group] tokens_group None) =
     Inr ([tokens_group ! 0, tokens_group ! 1, tokens_group ! 3, tokens_group ! 4],
          \<lparr>buffers = [line_group], tokens = drop 6 tokens_group, tokens_end = None,
             current = Some (tokens_group ! 5), previous = Some (tokens_group ! 4)\<rparr>)"
  by (simp add: example_defs tokens_group_def fetch_until_loop.simps)

text \<open>
  C7. For the lines \<^verbatim>\<open>(a, (b)\<close> and \<^verbatim>\<open>f(a, [b\<close>, which end inside an open bracket, the
  generator of the tokenizer raises \<^verbatim>\<open>tokenize.TokenError\<close> after the last token of the
  line. \<^verbatim>\<open>fetch_token\<close> catches \<^verbatim>\<open>StopIteration\<close> only, so the scan for the missing
  closing bracket does not return the tokens accumulated: \<^verbatim>\<open>fetch_until\<close> raises.
\<close>

theorem fetch_until_unclosed_bracket_raises:
  "fetch_until (Val (PyStr '';''))
     (TokenProcessor_init [line_unclosed] tokens_unclosed (Some TokenError)) = Inl TokenError \<and>
   fetch_until (Val (PyStr '')''))
     (TokenProcessor_init [line_open] (drop 2 tokens_open) (Some TokenError)) = Inl TokenError \<and>
   fetch_until (Val (PyInt NEWLINE))
     (TokenProcessor_init [line_open] tokens_open (Some TokenError)) = Inl TokenError"
  by (simp add: example_defs tokens_unclosed_def tokens_open_def fetch_until_loop.simps)

section \<open>The scanner's exits\<close>

lemma skip_lvalue_exhausted:
  fixes self :: AfterCommentParser
  shows "tokens self = ts \<Longrightarrow> tokens_end self = None \<Longrightarrow>
    \<forall>t \<in> set ts. tvalue t \<noteq> ''='' \<and> tvalue t \<noteq> '':'' \<Longrightarrow>
    \<exists>self1. skip_lvalue self = Inr (False, self1) \<and> tokens self1 = [] \<and>
      current self1 = None \<and> comment self1 = comment self"
proof (induction ts arbitrary: self)
  case Nil
  then show ?case by (simp add: skip_lvalue.simps [of self] fetch_token_Nil)
next
  case (Cons t rest)
  let ?s1 = "self\<lparr>tokens := rest, previous := current self, current := Some t\<rparr>"
  from Cons.prems have ft: "fetch_token self = Inr (Some t, ?s1)"
    by (simp add: fetch_token_Cons)
  have "\<exists>self1. skip_lvalue ?s1 = Inr (False, self1) \<and> tokens self1 = [] \<and>
      current self1 = None \<and> comment self1 = comment ?s1"
    using Cons.prems by (intro Cons.IH) simp_all
  with ft Cons.prems show ?case by (simp add: skip_lvalue.simps [of self])
qed

lemma skip_lvalue_found:
  fixes self :: AfterCommentParser
  shows "tokens self = pre @ t # rest \<Longrightarrow>
    \<forall>u \<in> set pre. tvalue u \<noteq> ''='' \<and> tvalue u \<noteq> '':'' \<Longrightarrow>
    tvalue t = ''='' \<or> tvalue t = '':'' \<Longrightarrow>
    \<exists>self1. skip_lvalue self = Inr (True, self1) \<and> tokens self1 = rest \<and>
      current self1 = Some t \<and> comment self1 = comment self"
proof (induction pre arbitrary: self)
  case Nil
  then show ?case by (auto simp: skip_lvalue.simps [of self] fetch_token_Cons)
next
  case (Cons u pre)
  let ?s1 = "self\<lparr>tokens := pre @ t # rest, previous := current self, current := Some u\<rparr>"
  from Cons.prems have ft: "fetch_token self = Inr (Some u, ?s1)"
    by (simp add: fetch_token_Cons)
  have "\<exists>self1. skip_lvalue ?s1 = Inr (True, self1) \<and> tokens self1 = rest \<and>
      current self1 = Some t \<and> comment self1 = comment ?s1"
    using Cons.prems by (intro Cons.IH) simp_all
  with ft Cons.prems show ?case by (simp add: skip_lvalue.simps [of self])
qed

text \<open>The result of \<open>fetch_rvalue\<close> extends the list it started from.\<close>

lemma fetch_rvalue_loop_prefix:
  "fetch_rvalue_loop toks self = Inr (r, self') \<Longrightarrow> prefix toks r"
proof (induction toks self arbitrary: r self' rule: fetch_rvalue_loop.induct)
  case (1 toks self)
  show ?case
  proof (cases "fetch_token self")
    case (Inl e)
    with "1.prems" show ?thesis by (simp add: fetch_rvalue_loop.simps [of toks self])
  next
    case (Inr p)
    obtain x s1 where p: "p = (x, s1)" by force
    with Inr have ft: "fetch_token self = Inr (x, s1)" by simp
    show ?thesis
    proof (cases x)
      case None
      with ft "1.prems" show ?thesis by (simp add: fetch_rvalue_loop.simps [of toks self])
    next
      case (Some t)
      consider (stop) "tvalue t = '','' \<or> tvalue t = '')''"
        | (paren) "\<not> (tvalue t = '','' \<or> tvalue t = '')'')" "tvalue t = ''(''"
        | (bracket) "\<not> (tvalue t = '','' \<or> tvalue t = '')'')" "tvalue t \<noteq> ''(''"
            "tvalue t = ''[''"
        | (brace) "\<not> (tvalue t = '','' \<or> tvalue t = '')'')" "tvalue t \<noteq> ''(''"
            "tvalue t \<noteq> ''[''" "tvalue t = ''{''"
        | (plain) "\<not> (tvalue t = '','' \<or> tvalue t = '')'')" "tvalue t \<noteq> ''(''"
            "tvalue t \<noteq> ''[''" "tvalue t \<noteq> ''{''"
        by blast
      then show ?thesis
      proof cases
        case stop
        with ft Some "1.prems" show ?thesis
          by (auto simp: fetch_rvalue_loop.simps [of toks self])
      next
        case paren
        with ft Some "1.prems" obtain inner s2 consumed s3 where
          n: "fetch_until (Val (PyStr '')'')) s1 = Inr (inner, s2)" and
          f: "fetch_token s2 = Inr (consumed, s3)" and
          k: "fetch_rvalue_loop (toks @ [Some t] @ map Some inner @ [consumed]) s3 =
              Inr (r, self')"
          by (auto simp: fetch_rvalue_loop.simps [of toks self] split: sum.splits prod.splits)
        from "1.IH"(1) [OF ft refl Some paren n refl f refl k] show ?thesis
          by (auto dest: append_prefixD)
      next
        case bracket
        with ft Some "1.prems" obtain inner s2 consumed s3 where
          n: "fetch_until (Val (PyStr '']'')) s1 = Inr (inner, s2)" and
          f: "fetch_token s2 = Inr (consumed, s3)" and
          k: "fetch_rvalue_loop (toks @ [Some t] @ map Some inner @ [consumed]) s3 =
              Inr (r, self')"
          by (auto simp: fetch_rvalue_loop.simps [of toks self] split: sum.splits prod.splits)
        from "1.IH"(2) [OF ft refl Some bracket n refl f refl k] show ?thesis
          by (auto dest: append_prefixD)
      next
        case brace
        with ft Some "1.prems" obtain inner s2 consumed s3 where
          n: "fetch_until (Val (PyStr ''}'')) s1 = Inr (inner, s2)" and
          f: "fetch_token s2 = Inr (consumed, s3)" and
          k: "fetch_rvalue_loop (toks @ [Some t] @ map Some inner @ [consumed]) s3 =
              Inr (r, self')"
          by (auto simp: fetch_rvalue_loop.simps [of toks self] split: sum.splits prod.splits)
        from "1.IH"(3) [OF ft refl Some brace n refl f refl k] show ?thesis
          by (auto dest: append_prefixD)
      next
        case plain
        with ft Some "1.prems" have
          k: "fetch_rvalue_loop (toks @ [Some t]) s1 = Inr (r, self')"
          by (auto simp: fetch_rvalue_loop.simps [of toks self])
        from "1.IH"(4) [OF ft refl Some plain k] show ?thesis by (auto dest: append_prefixD)
      qed
    qed
  qed
qed

text \<open>
  The right-hand side fetched is empty only when the very first fetch ends the loop:
  the input ends there, or the token is \<^verbatim>\<open>,\<close> or \<^verbatim>\<open>)\<close>. Any other first token is
  appended, so the type that stands behind the \<^verbatim>\<open>:\<close> of an annotation makes the
  right-hand side nonempty.
\<close>

lemma fetch_rvalue_empty_iff:
  "(\<exists>self'. fetch_rvalue self = Inr ([], self')) \<longleftrightarrow>
   (case tokens self of
      [] \<Rightarrow> tokens_end self = None
    | t # rest \<Rightarrow> tvalue t = '','' \<or> tvalue t = '')'')"
proof (cases "tokens self")
  case Nil
  then show ?thesis
    by (simp add: fetch_rvalue_def fetch_rvalue_loop.simps [of "[]" self] fetch_token_Nil
        split: option.splits)
next
  case (Cons t rest)
  show ?thesis
  proof (cases "tvalue t = '','' \<or> tvalue t = '')''")
    case True
    with Cons show ?thesis
      by (auto simp: fetch_rvalue_def fetch_rvalue_loop.simps [of "[]" self] fetch_token_Cons)
  next
    case False
    have "r \<noteq> []" if "fetch_rvalue self = Inr (r, self')" for r self'
      using that Cons False
      by (auto simp: fetch_rvalue_def fetch_rvalue_loop.simps [of "[]" self] fetch_token_Cons
          split: if_splits sum.splits prod.splits dest!: fetch_rvalue_loop_prefix)
    with Cons False show ?thesis by auto
  qed
qed

lemmas parse_example_defs = AfterCommentParser_parse_def AfterCommentParser_init_def
  skip_lvalue.simps fetch_rvalue_def fetch_rvalue_loop.simps fetch_until_loop.simps
  startswith_def

text \<open>
  C5. The lines \<^verbatim>\<open>x: int\<close>, \<^verbatim>\<open>y = 1,  #: doc\<close> start with a statement that is an
  annotation and nothing else, and the scanner ends with the comment \<^verbatim>\<open>doc\<close>. After the
  \<^verbatim>\<open>:\<close> the right-hand side fetched is not empty: it holds the name \<^verbatim>\<open>int\<close>, and
  since \<open>fetch_rvalue\<close> does not stop at the \<^verbatim>\<open>NEWLINE\<close> it runs on into the next
  statement, up to its \<^verbatim>\<open>,\<close>; the token fetched next is the comment of that statement.
  For the single line \<^verbatim>\<open>x: int\<close> the right-hand side holds the name, the \<^verbatim>\<open>NEWLINE\<close>
  and the \<^verbatim>\<open>ENDMARKER\<close>, so the exit for an empty right-hand side is not the one taken:
  \<open>parse\<close> returns there because the token fetched next is \<^verbatim>\<open>None\<close>.
\<close>

theorem AfterCommentParser_parse_annotation_comment:
  "AfterCommentParser_parse
     (AfterCommentParser_init [line_x_int, line_y_tuple] tokens_x_int_then_y None) =
     Inr \<lparr>buffers = [line_x_int, line_y_tuple], tokens = drop 9 tokens_x_int_then_y,
          tokens_end = None, current = Some (tokens_x_int_then_y ! 8),
          previous = Some (tokens_x_int_then_y ! 7), comment = Some ''doc''\<rparr> \<and>
   (\<exists>self1. skip_lvalue (AfterCommentParser_init [line_x_int, line_y_tuple]
        tokens_x_int_then_y None) = Inr (True, self1) \<and>
      fetch_rvalue self1 =
        Inr (map Some (take 5 (drop 2 tokens_x_int_then_y)),
             \<lparr>buffers = [line_x_int, line_y_tuple], tokens = drop 8 tokens_x_int_then_y,
                tokens_end = None, current = Some (tokens_x_int_then_y ! 7),
                previous = Some (tokens_x_int_then_y ! 6), comment = None\<rparr>)) \<and>
   (\<exists>self1. skip_lvalue (AfterCommentParser_init [line_x_int] tokens_x_int None) =
        Inr (True, self1) \<and>
      fetch_rvalue self1 =
        Inr (map Some (drop 2 tokens_x_int),
             \<lparr>buffers = [line_x_int], tokens = [], tokens_end = None, current = None,
                previous = Some (last tokens_x_int), comment = None\<rparr>)) \<and>
   AfterCommentParser_parse (AfterCommentParser_init [line_x_int] tokens_x_int None) =
     Inr \<lparr>buffers = [line_x_int], tokens = [], tokens_end = None, current = None,
          previous = None, comment = None\<rparr>"
  by (simp add: parse_example_defs example_defs tokens_x_int_then_y_def tokens_x_int_def
      strip_def rstrip_def lstrip_def isspace_def)

text \<open>
  C4. On the tokens of \<^verbatim>\<open>x = 1  #: the comment\<close> the scanner ends with no comment.
  \<open>fetch_rvalue\<close> stops only at a \<^verbatim>\<open>,\<close>, a \<^verbatim>\<open>)\<close> or the end of the input, so the
  right-hand side it returns holds the number, the comment token, the \<^verbatim>\<open>NEWLINE\<close> and
  the \<^verbatim>\<open>ENDMARKER\<close>; the one token fetched afterwards is \<^verbatim>\<open>None\<close> and \<open>parse\<close> returns.
\<close>

theorem AfterCommentParser_parse_misses_comment:
  "AfterCommentParser_parse (AfterCommentParser_init [line_x_comment] tokens_x_comment None) =
     Inr \<lparr>buffers = [line_x_comment], tokens = [], tokens_end = None, current = None,
          previous = None, comment = None\<rparr> \<and>
   (\<exists>self1. skip_lvalue (AfterCommentParser_init [line_x_comment] tokens_x_comment None) =
        Inr (True, self1) \<and>
      fetch_rvalue self1 =
        Inr (map Some (drop 2 tokens_x_comment),
             \<lparr>buffers = [line_x_comment], tokens = [], tokens_end = None, current = None,
                previous = Some (last tokens_x_comment), comment = None\<rparr>))"
  by (simp add: parse_example_defs example_defs tokens_x_comment_def)

section \<open>Name extraction and the walker\<close>

text \<open>
  C6. Name extraction raises \<^verbatim>\<open>TypeError\<close> for a subscript and for a starred target,
  and for an attribute unless its receiver is the very object passed as \<^verbatim>\<open>self\<close>. The
  walker, however, never calls it: \<^verbatim>\<open>visit_Assign\<close> leaves the state as it is, and after
  visiting the module \<^verbatim>\<open>d[0] = 'x'\<close>, \<^verbatim>\<open>y = 1  #: doc\<close> no comment is recorded for
  \<^verbatim>\<open>y\<close> either.
\<close>

theorem walker_records_nothing:
  "get_lvar_names (Subscript i v sl) self = Inl TypeError \<and>
   get_lvar_names (Starred i v) self = Inl TypeError \<and>
   get_lvar_names (Attribute i v attr) self = (if ast_eq v self then Inr [attr] else Inl TypeError) \<and>
   visit_Assign picker stmt = picker \<and>
   vcp_comments (visit (VariableCommentPicker_init [line_subscript, line_y_doc] ''utf-8'')
      module_subscript_then_y) ([], ''y'') = None"
  by (simp add: visit_Assign_def visit_def VariableCommentPicker_init_def)

text \<open>
  C2. For the target \<^verbatim>\<open>self.y\<close> inside a method whose first parameter is \<^verbatim>\<open>self\<close>, the
  receiver is an \<^verbatim>\<open>ast.Name\<close> node and the \<^verbatim>\<open>self\<close> argument an \<^verbatim>\<open>ast.arg\<close> node, two
  different objects: the comparison fails and \<^verbatim>\<open>TypeError\<close> is raised instead of
  \<^verbatim>\<open>['y']\<close>. A bare name yields itself, and tuples and lists are flattened in order.
  On the tokens of \<^verbatim>\<open>self.y = compute(a, (b, c), [d])  #: note\<close> the scanner ends with
  no comment.
\<close>

theorem get_lvar_names_self_attribute:
  "get_lvar_names (Attribute 12 (Name 13 ''self'') ''y'') (Some (Arg 5 ''self'')) = Inl TypeError \<and>
   get_lvar_names (Name i ident) self = Inr [ident] \<and>
   get_lvar_names (Tuple 20 [Name 21 ''a'', List 22 [Name 23 ''b'', Name 24 ''c'']]) self =
     Inr [''a'', ''b'', ''c''] \<and>
   (\<exists>self'. AfterCommentParser_parse (AfterCommentParser_init [line_self_y] tokens_self_y None) = Inr self' \<and>
      comment self' = None)"
  by (simp add: parse_example_defs example_defs tokens_self_y_def)

section \<open>Failure of the dedent\<close>

lemma strip_empty_iff: "strip line = [] \<longleftrightarrow> (\<forall>ch \<in> set line. isspace ch)"
proof
  assume "strip line = []"
  then have "\<forall>ch \<in> set (dropWhile isspace line). isspace ch"
    by (simp add: strip_def rstrip_def lstrip_def dropWhile_eq_Nil_conv)
  then have "dropWhile isspace line = []"
    by (metis hd_dropWhile hd_in_set)
  then show "\<forall>ch \<in> set line. isspace ch" by (simp add: dropWhile_eq_Nil_conv)
next
  assume "\<forall>ch \<in> set line. isspace ch"
  then show "strip line = []"
    by (auto simp: strip_def rstrip_def lstrip_def dest: set_dropWhileD)
qed

lemma expandtabs_from_no_linebreak:
  "\<forall>ch \<in> set s. \<not> is_linebreak ch \<Longrightarrow> \<forall>ch \<in> set (expandtabs_from j s). \<not> is_linebreak ch"
  by (induction j s rule: expandtabs_from.induct) (auto simp: is_linebreak_def)

lemma expandtabs_from_nonempty: "s \<noteq> [] \<Longrightarrow> expandtabs_from j s \<noteq> []"
  by (cases s) auto

lemma splitlines_from_one_line:
  "\<forall>ch \<in> set s. \<not> is_linebreak ch \<Longrightarrow>
   splitlines_from line s = (if line @ s = [] then [] else [line @ s])"
proof (induction line s rule: splitlines_from.induct)
  case (3 line ch ch' rest)
  then have "ch \<noteq> CHR 0x0D" by (auto simp: is_linebreak_def)
  with 3 show ?case by simp
qed simp_all

lemma py_min_Inl_iff: "py_min xs = Inl e \<longleftrightarrow> xs = [] \<and> e = ValueError"
  by (cases xs) auto

lemma splitlines_from_nonempty: "s \<noteq> [] \<Longrightarrow> splitlines_from line s \<noteq> []"
  by (induction line s rule: splitlines_from.induct) auto

lemma dedent_docstring_cases:
  "dedent_docstring s =
     (if s = [] then Inr []
      else if filter (\<lambda>line. strip line \<noteq> []) (drop 1 (splitlines (expandtabs s))) = []
        then Inl ValueError
      else Inr (projr (dedent_docstring s)))"
proof -
  have "splitlines (expandtabs s) \<noteq> []" if "s \<noteq> []"
    using that by (simp add: splitlines_def expandtabs_def splitlines_from_nonempty
        expandtabs_from_nonempty)
  then show ?thesis
    by (auto simp: dedent_docstring_def Let_def py_min_Inl_iff
        split: sum.splits list.splits)
qed

text \<open>
  C10. \<^verbatim>\<open>dedent_docstring\<close> raises \<^verbatim>\<open>ValueError\<close> exactly on the non-empty strings in
  which every line after the first consists of whitespace only (there may be no such
  line at all); in particular on every non-empty string without a line break. It
  returns a string exactly on the empty string and on the strings with a character
  that is not whitespace in some line after the first.
\<close>

theorem dedent_docstring_ValueError:
  "(dedent_docstring s = Inl ValueError \<longleftrightarrow>
      s \<noteq> [] \<and> (\<forall>line \<in> set (drop 1 (splitlines (expandtabs s))). \<forall>ch \<in> set line. isspace ch)) \<and>
   (s \<noteq> [] \<and> (\<forall>ch \<in> set s. \<not> is_linebreak ch) \<longrightarrow> dedent_docstring s = Inl ValueError) \<and>
   ((\<exists>r. dedent_docstring s = Inr r) \<longleftrightarrow>
      s = [] \<or> (\<exists>line \<in> set (drop 1 (splitlines (expandtabs s))). \<exists>ch \<in> set line. \<not> isspace ch))"
proof -
  let ?later = "drop 1 (splitlines (expandtabs s))"
  have blank: "filter (\<lambda>line. strip line \<noteq> []) ?later = [] \<longleftrightarrow>
      (\<forall>line \<in> set ?later. \<forall>ch \<in> set line. isspace ch)"
    by (simp add: filter_empty_conv strip_empty_iff)
  have one: "?later = []" if "\<forall>ch \<in> set s. \<not> is_linebreak ch"
    using that expandtabs_from_no_linebreak [of s 0]
    by (simp add: splitlines_def expandtabs_def splitlines_from_one_line)
  have c1: "dedent_docstring s = Inl ValueError \<longleftrightarrow>
      s \<noteq> [] \<and> (\<forall>line \<in> set ?later. \<forall>ch \<in> set line. isspace ch)"
    using blank by (subst dedent_docstring_cases) auto
  have c3: "(\<exists>r. dedent_docstring s = Inr r) \<longleftrightarrow>
      s = [] \<or> (\<exists>line \<in> set ?later. \<exists>ch \<in> set line. \<not> isspace ch)"
    using blank by (subst dedent_docstring_cases) auto
  from c1 one c3 show ?thesis by auto
qed

theorem dedent_docstring_ValueError_witness:
  "dedent_docstring ''Summary line.'' = Inl ValueError \<and>
   dedent_docstring (''Summary line.'' @ [CHR 0x0A] @ ''    '') = Inl ValueError \<and>
   (\<exists>r. dedent_docstring (''Summary line.'' @ [CHR 0x0A] @ ''    body'') = Inr r)"
proof (intro conjI)
  have "''Summary line.'' \<noteq> [] \<and> (\<forall>ch \<in> set ''Summary line.''. \<not> is_linebreak ch)"
    by (simp add: is_linebreak_def)
  from dedent_docstring_ValueError [THEN conjunct2, THEN conjunct1, THEN mp, OF this]
  show "dedent_docstring ''Summary line.'' = Inl ValueError" .
next
  let ?s = "''Summary line.'' @ [CHR 0x0A] @ ''    ''"
  have "?s \<noteq> [] \<and>
      (\<forall>line \<in> set (drop 1 (splitlines (expandtabs ?s))). \<forall>ch \<in> set line. isspace ch)"
    by (simp add: splitlines_def expandtabs_def is_linebreak_def isspace_def)
  from dedent_docstring_ValueError [THEN conjunct1, THEN iffD2, OF this]
  show "dedent_docstring ?s = Inl ValueError" .
next
  let ?s = "''Summary line.'' @ [CHR 0x0A] @ ''    body''"
  have "?s = [] \<or>
      (\<exists>line \<in> set (drop 1 (splitlines (expandtabs ?s))). \<exists>ch \<in> set line. \<not> isspace ch)"
    by (simp add: splitlines_def expandtabs_def is_linebreak_def isspace_def)
  from dedent_docstring_ValueError [THEN conjunct2, THEN conjunct2, THEN iffD2, OF this]
  show "\<exists>r. dedent_docstring ?s = Inr r" .
qed

section \<open>Construction of the facade\<close>

text \<open>
  C1. Whatever the source text and the encoding, constructing the \<^verbatim>\<open>Parser\<close> raises
  \<^verbatim>\<open>NameError\<close>, provided the builtins do not bind \<^verbatim>\<open>filter_whitespace\<close> (Python's do
  not); so no analysis is ever returned.
\<close>

theorem Parser_init_NameError:
  "''filter_whitespace'' \<notin> set builtins \<Longrightarrow>
   Parser_init builtins bound source enc = Inl NameError \<and>
   analyze builtins bound source = Inl NameError"
  by (simp add: Parser_init_def analyze_def module_globals_def)

theorem Parser_init_NameError_witness:
  "Parser_init [''callable'', ''isinstance'', ''iter'', ''len'', ''list'', ''min'', ''next'']
     (\<lambda>s. Inr s) ''x = 1'' ''utf-8'' = Inl NameError \<and>
   analyze [''callable'', ''isinstance'', ''iter'', ''len'', ''list'', ''min'', ''next'']
     (\<lambda>s. Inr s) ''x = 1'' = Inl NameError"
  by (rule Parser_init_NameError) simp

section \<open>The spans of the locator\<close>

text \<open>No definition is ever recorded: the map of spans stays empty on every input.\<close>

lemma DefinitionFinder_parse_records_nothing:
  "df_definitions (DefinitionFinder_parse (DefinitionFinder_init lines toks fin)) = Map.empty"
  by (simp add: DefinitionFinder_parse_def DefinitionFinder_init_def)


end
